theory Spec2Isabelle
  imports Main "HOL-Library.Word"
begin

section \<open>The entry aggregator of client.go\<close>

text \<open>
  \<^verbatim>\<open>ServiceEntry\<close> is the struct of lines 16-24. \<^verbatim>\<open>Addr\<close> is a \<^verbatim>\<open>net.IP\<close>, a byte
  slice that is nil until it is set; \<^verbatim>\<open>Port\<close> is a Go \<^verbatim>\<open>int\<close> on which no
  arithmetic is ever done.
\<close>

type_synonym byte = "8 word"

record ServiceEntry =
  Name :: string
  Addr :: "byte list option"
  Port :: int
  Info :: string
  hasTXT :: bool
  sent :: bool

definition complete :: "ServiceEntry \<Rightarrow> bool" where
  "complete s = (Addr s \<noteq> None \<and> Port s \<noteq> 0 \<and> hasTXT s)"

text \<open>
  The registry is a Go \<^verbatim>\<open>map[string]*ServiceEntry\<close>: its values are pointers, so two
  keys can hold the same object. The model is an explicit store: \<open>heap\<close> is the list
  of the entry objects allocated so far, a pointer is \<open>nil_ref\<close> or \<open>Ref a\<close> with
  \<open>a\<close> the position of the object in the heap, and a fresh object is allocated at
  the end of the heap, so that no allocation moves or changes an older object.
\<close>

datatype ref = nil_ref | Ref nat

record registry =
  inprogress :: "string \<rightharpoonup> ref"
  heap :: "ServiceEntry list"

text \<open>A field read and a field write through a pointer. Go panics on a nil pointer.\<close>

definition load :: "registry \<Rightarrow> ref \<Rightarrow> ServiceEntry option" where
  "load r p =
     (case p of
        nil_ref \<Rightarrow> None
      | Ref a \<Rightarrow> if a < length (heap r) then Some (heap r ! a) else None)"

definition modify :: "registry \<Rightarrow> ref \<Rightarrow> (ServiceEntry \<Rightarrow> ServiceEntry) \<Rightarrow> registry option" where
  "modify r p f =
     (case p of
        nil_ref \<Rightarrow> None
      | Ref a \<Rightarrow>
          if a < length (heap r) then Some (r\<lparr>heap := (heap r)[a := f (heap r ! a)]\<rparr>)
          else None)"

text \<open>
  \<^verbatim>\<open>ensureName\<close> (lines 235-244): the entry of the name when the key is present
  (whatever pointer is stored there); otherwise a new entry, the struct literal
  \<^verbatim>\<open>&ServiceEntry{Name: name}\<close> with every other field at its zero value.
\<close>

definition new_entry :: "string \<Rightarrow> ServiceEntry" where
  "new_entry name =
     \<lparr>Name = name, Addr = None, Port = 0, Info = [], hasTXT = False, sent = False\<rparr>"

definition ensureName :: "registry \<Rightarrow> string \<Rightarrow> ref \<times> registry" where
  "ensureName r name =
     (case inprogress r name of
        Some inp \<Rightarrow> (inp, r)
      | None \<Rightarrow>
          (let inp = Ref (length (heap r))
           in (inp,
               r\<lparr>heap := heap r @ [new_entry name],
                 inprogress := (inprogress r)(name \<mapsto> inp)\<rparr>)))"

text \<open>\<^verbatim>\<open>alias\<close> (lines 247-250).\<close>

definition "alias" :: "registry \<Rightarrow> string \<Rightarrow> string \<Rightarrow> registry" where
  "alias r src dst =
     (case ensureName r src of
        (srcEntry, r') \<Rightarrow> r'\<lparr>inprogress := (inprogress r')(dst \<mapsto> srcEntry)\<rparr>)"

section \<open>The question name\<close>

text \<open>
  \<^verbatim>\<open>QueryParam\<close> is the struct of lines 32-39. \<^verbatim>\<open>Timeout\<close> is a \<^verbatim>\<open>time.Duration\<close>, a
  signed 64-bit count of nanoseconds; \<^verbatim>\<open>Interface\<close> is a pointer to a
  \<^verbatim>\<open>net.Interface\<close>, nil when the caller pins none; \<^verbatim>\<open>Entries\<close> is a channel, held
  in the struct by reference: the field is the identity of the channel, and what is sent
  on it is part of the effects of a call (\<open>sink\<close> below).
\<close>

type_synonym iface = nat
type_synonym chan = nat

record QueryParam =
  Service :: string
  Domain' :: string
  Timeout :: "64 word"
  Interface :: "iface option"
  QueryType :: "16 word"
  Entries :: chan

definition Second :: "64 word" where
  "Second = 1000000000"

text \<open>
  Modelled from the spec: \<^verbatim>\<open>trimDot\<close> is called at line 163 and defined in another
  file of the package. The spec says of it that trailing dots in the caller-supplied
  service and domain are normalized away before the concatenation: the longest run of
  dots at the end of the string is removed.
\<close>

definition trimDot :: "string \<Rightarrow> string" where
  "trimDot s = rev (dropWhile (\<lambda>c. c = CHR ''.'') (rev s))"

text \<open>
  \<^verbatim>\<open>strings.Replace(s, old, new, -1)\<close> of the Go library, with the count \<open>-1\<close> of
  line 164 (no limit): the occurrences of \<open>old\<close> are replaced from left to right
  without overlap. For an empty \<open>old\<close> the library inserts \<open>new\<close> before every
  character and at the end.
\<close>

function Replace :: "string \<Rightarrow> string \<Rightarrow> string \<Rightarrow> string" where
  "Replace [] old new = (if old = [] then new else [])"
| "Replace (c # cs) old new =
     (if old = [] then new @ c # Replace cs old new
      else if take (length old) (c # cs) = old
        then new @ Replace (drop (length old) (c # cs)) old new
      else c # Replace cs old new)"
  by pat_completeness auto
termination
  by (relation "measure (\<lambda>(s, old, new). length s)") auto

text \<open>
  The service name of lines 163-164: \<^verbatim>\<open>fmt.Sprintf("%s.%s.", ...)\<close>, then every space
  replaced by a backslash (character 0x5C) and a space.
\<close>

definition serviceAddr :: "QueryParam \<Rightarrow> string" where
  "serviceAddr params =
     Replace (trimDot (Service params) @ ''.'' @ trimDot (Domain' params) @ ''.'')
       '' '' [CHR 0x5C, CHR '' '']"

section \<open>The DNS messages and the world around a query\<close>

text \<open>
  The resource records and messages of the DNS codec, with the fields the client reads
  or sets: the header of a record (\<^verbatim>\<open>Header().Name\<close>, \<^verbatim>\<open>Header().Rrtype\<close>), and of a
  message its id, the recursion flag, the question and the answer section.
\<close>

record RR =
  hdr_Name :: string
  hdr_Rrtype :: "16 word"
  hdr_Class :: "16 word"
  hdr_Ttl :: "32 word"
  rdata :: "byte list"

record dns_Question =
  q_Name :: string
  Qtype :: "16 word"
  Qclass :: "16 word"

record Msg =
  Id' :: "16 word"
  RecursionDesired :: bool
  Question :: "dns_Question list"
  Answer :: "RR list"

definition TypeANY :: "16 word" where
  "TypeANY = 255"

definition ClassINET :: "16 word" where
  "ClassINET = 1"

definition new_Msg :: Msg where
  "new_Msg = \<lparr>Id' = 0, RecursionDesired = False, Question = [], Answer = []\<rparr>"

text \<open>
  \<^verbatim>\<open>SetQuestion\<close> of the codec: a fresh id (drawn at random by the codec, here given),
  recursion desired, and the one question.
\<close>

definition SetQuestion :: "Msg \<Rightarrow> 16 word \<Rightarrow> string \<Rightarrow> 16 word \<Rightarrow> Msg" where
  "SetQuestion m i z t =
     m\<lparr>Id' := i, RecursionDesired := True,
       Question := [\<lparr>q_Name = z, Qtype = t, Qclass = ClassINET\<rparr>]\<rparr>"

text \<open>
  An error is made by this code with \<^verbatim>\<open>fmt.Errorf\<close> or comes from a library.
\<close>

datatype error = Errorf string | External string

type_synonym conn = nat

datatype family = udp4 | udp6

text \<open>
  What the select statement of lines 181-190 takes, in the order it takes it: a message
  from \<^verbatim>\<open>msgCh\<close>, or the firing of the timer \<^verbatim>\<open>finish\<close>.
\<close>

datatype event = Recv Msg | Finish

datatype read_result = ReadErr error | Datagram "byte list"

text \<open>
  Everything outside the package that a call depends on: the two binds of
  \<^verbatim>\<open>net.ListenMulticastUDP\<close> (a connection or an error), the primitive
  \<^verbatim>\<open>NewPacketConn(l).SetMulticastInterface(iface)\<close> of either stack applied to the
  socket it is handed (a nil socket is \<open>None\<close>), the codec's \<^verbatim>\<open>Pack\<close> and
  \<^verbatim>\<open>Unpack\<close>, the id the codec draws, and the events the select statement takes. The
  two receiver tasks and the timer run concurrently with the loop; the list \<open>selected\<close>
  is the one sequence in which the loop observes their effects.
\<close>

record env =
  ListenMulticastUDP :: "family \<Rightarrow> error + conn"
  SetMulticastInterface :: "family \<Rightarrow> conn option \<Rightarrow> iface \<Rightarrow> error option"
  Pack :: "Msg \<Rightarrow> error + byte list"
  Unpack :: "byte list \<Rightarrow> error + Msg"
  new_Id :: "16 word"
  selected :: "event list"

text \<open>
  The effects of a call: the lines logged (format and error), the datagrams written
  (socket, destination group, bytes), the records sent on \<^verbatim>\<open>params.Entries\<close>, and the
  sockets closed. A send on \<^verbatim>\<open>params.Entries\<close> is taken to complete: the caller
  keeps the channel drained, as the comment of lines 54-55 asks.
\<close>

record world =
  logged :: "(string \<times> error) list"
  written :: "(conn \<times> family \<times> byte list) list"
  sink :: "RR list"
  closed_conns :: "conn list"

section \<open>The client\<close>

text \<open>
  The struct of lines 92-99. \<^verbatim>\<open>closedCh\<close> and \<^verbatim>\<open>closeLock\<close> only coordinate the
  receiver tasks and have no sequential content.
\<close>

record client =
  ipv4List :: "conn option"
  ipv6List :: "conn option"
  closed :: bool

definition conn_of :: "error + conn \<Rightarrow> conn option" where
  "conn_of r = (case r of Inl err \<Rightarrow> None | Inr l \<Rightarrow> Some l)"

definition log_Printf :: "string \<Rightarrow> error \<Rightarrow> world \<Rightarrow> world" where
  "log_Printf fmt err w = w\<lparr>logged := logged w @ [(fmt, err)]\<rparr>"

text \<open>\<^verbatim>\<open>newClient\<close> (lines 103-124).\<close>

definition newClient :: "env \<Rightarrow> world \<Rightarrow> (error + client) \<times> world" where
  "newClient e w =
     (let r4 = ListenMulticastUDP e udp4;
          w1 = (case r4 of
                  Inl err \<Rightarrow> log_Printf ''[ERR] mdns: Failed to bind to udp4 port: %v'' err w
                | Inr l \<Rightarrow> w);
          r6 = ListenMulticastUDP e udp6;
          w2 = (case r6 of
                  Inl err \<Rightarrow> log_Printf ''[ERR] mdns: Failed to bind to udp6 port: %v'' err w1
                | Inr l \<Rightarrow> w1);
          ipv4 = conn_of r4;
          ipv6 = conn_of r6
      in if ipv4 = None \<and> ipv6 = None
         then (Inl (Errorf ''Failed to bind to any udp port!''), w2)
         else (Inr \<lparr>ipv4List = ipv4, ipv6List = ipv6, closed = False\<rparr>, w2))"

text \<open>\<^verbatim>\<open>Close\<close> (lines 127-144); it always returns nil.\<close>

definition Close :: "client \<Rightarrow> world \<Rightarrow> client \<times> world" where
  "Close c w =
     (if closed c then (c, w)
      else
        (let w1 = (case ipv4List c of
                     Some l \<Rightarrow> w\<lparr>closed_conns := closed_conns w @ [l]\<rparr>
                   | None \<Rightarrow> w);
             w2 = (case ipv6List c of
                     Some l \<Rightarrow> w1\<lparr>closed_conns := closed_conns w1 @ [l]\<rparr>
                   | None \<Rightarrow> w1)
         in (c\<lparr>closed := True\<rparr>, w2)))"

text \<open>
  \<^verbatim>\<open>setInterface\<close> (lines 148-158): each primitive is applied to the socket field as
  it is, nil or not.
\<close>

definition setInterface :: "env \<Rightarrow> client \<Rightarrow> iface \<Rightarrow> error option" where
  "setInterface e c ifi =
     (case SetMulticastInterface e udp4 (ipv4List c) ifi of
        Some err \<Rightarrow> Some err
      | None \<Rightarrow>
          (case SetMulticastInterface e udp6 (ipv6List c) ifi of
             Some err \<Rightarrow> Some err
           | None \<Rightarrow> None))"

text \<open>\<^verbatim>\<open>sendQuery\<close> (lines 196-208); the results of the two writes are dropped.\<close>

definition sendQuery :: "env \<Rightarrow> client \<Rightarrow> Msg \<Rightarrow> world \<Rightarrow> error option \<times> world" where
  "sendQuery e c q w =
     (case Pack e q of
        Inl err \<Rightarrow> (Some err, w)
      | Inr buf \<Rightarrow>
          (let w1 = (case ipv4List c of
                       Some l \<Rightarrow> w\<lparr>written := written w @ [(l, udp4, buf)]\<rparr>
                     | None \<Rightarrow> w);
               w2 = (case ipv6List c of
                       Some l \<Rightarrow> w1\<lparr>written := written w1 @ [(l, udp6, buf)]\<rparr>
                     | None \<Rightarrow> w1)
           in (None, w2)))"

text \<open>
  \<^verbatim>\<open>recv\<close> (lines 211-232) on the results of the reads it makes until the client is
  closed: the lines it logs and the messages it puts on \<^verbatim>\<open>msgCh\<close>. A nil socket
  returns at once; a read error and a datagram that does not unpack are skipped.
\<close>

fun recv_reads :: "env \<Rightarrow> read_result list \<Rightarrow> (string \<times> error) list \<times> Msg list" where
  "recv_reads e [] = ([], [])"
| "recv_reads e (ReadErr err # rs) = recv_reads e rs"
| "recv_reads e (Datagram buf # rs) =
     (case Unpack e buf of
        Inl err \<Rightarrow>
          (case recv_reads e rs of
             (lg, ms) \<Rightarrow> ((''[ERR] mdns: Failed to unpack packet: %v'', err) # lg, ms))
      | Inr msg \<Rightarrow> (case recv_reads e rs of (lg, ms) \<Rightarrow> (lg, msg # ms)))"

definition recv :: "env \<Rightarrow> conn option \<Rightarrow> read_result list \<Rightarrow> (string \<times> error) list \<times> Msg list" where
  "recv e l reads = (case l of None \<Rightarrow> ([], []) | Some c \<Rightarrow> recv_reads e reads)"

section \<open>The query\<close>

text \<open>
  A call has returned an error value (nil is \<open>None\<close>), or it is still blocked in the
  select statement when the observed events end.
\<close>

datatype outcome = Returned "error option" | Blocked

text \<open>
  The inner loop of lines 183-187 over the answers of one message: a matching answer
  is sent on \<^verbatim>\<open>params.Entries\<close>.
\<close>

fun forward :: "string \<Rightarrow> 16 word \<Rightarrow> RR list \<Rightarrow> RR list \<Rightarrow> RR list" where
  "forward addr qt [] snk = snk"
| "forward addr qt (answer # rest) snk =
     forward addr qt rest
       (if hdr_Name answer = addr \<and> (qt = TypeANY \<or> hdr_Rrtype answer = qt)
        then snk @ [answer] else snk)"

text \<open>The loop of lines 180-191.\<close>

fun listen :: "string \<Rightarrow> 16 word \<Rightarrow> event list \<Rightarrow> RR list \<Rightarrow> outcome \<times> RR list" where
  "listen addr qt [] snk = (Blocked, snk)"
| "listen addr qt (Recv resp # es) snk = listen addr qt es (forward addr qt (Answer resp) snk)"
| "listen addr qt (Finish # es) snk = (Returned None, snk)"

text \<open>
  \<^verbatim>\<open>query\<close> (lines 161-193). When \<^verbatim>\<open>sendQuery\<close> fails, line 175 returns nil.
\<close>

definition query :: "env \<Rightarrow> client \<Rightarrow> QueryParam \<Rightarrow> world \<Rightarrow> outcome \<times> world" where
  "query e c params w =
     (let addr = serviceAddr params;
          m = SetQuestion new_Msg (new_Id e) addr (QueryType params)
      in case sendQuery e c m w of
           (Some err, w1) \<Rightarrow> (Returned None, w1)
         | (None, w1) \<Rightarrow>
             (case listen addr (QueryType params) (selected e) (sink w1) of
                (out, snk) \<Rightarrow> (out, w1\<lparr>sink := snk\<rparr>)))"

text \<open>The defaults of lines 71-77, written into the caller's struct.\<close>

definition ensureDefaults :: "QueryParam \<Rightarrow> QueryParam" where
  "ensureDefaults params =
     (let p1 = (if Domain' params = [] then params\<lparr>Domain' := ''local''\<rparr> else params)
      in if Timeout p1 = 0 then p1\<lparr>Timeout := Second\<rparr> else p1)"

text \<open>
  \<^verbatim>\<open>Query\<close> (lines 56-81): the value returned, the caller's struct after the call, and
  the effects. The deferred \<^verbatim>\<open>Close\<close> runs on every return once the client exists.
\<close>

definition Query :: "env \<Rightarrow> QueryParam \<Rightarrow> world \<Rightarrow> outcome \<times> QueryParam \<times> world" where
  "Query e params w =
     (case newClient e w of
        (Inl err, w1) \<Rightarrow> (Returned (Some err), params, w1)
      | (Inr c, w1) \<Rightarrow>
          (case (case Interface params of
                   None \<Rightarrow> None
                 | Some ifi \<Rightarrow> setInterface e c ifi) of
             Some err \<Rightarrow> (Returned (Some err), params, snd (Close c w1))
           | None \<Rightarrow>
               (case query e c (ensureDefaults params) w1 of
                  (Blocked, w2) \<Rightarrow> (Blocked, ensureDefaults params, w2)
                | (Returned r, w2) \<Rightarrow>
                    (Returned r, ensureDefaults params, snd (Close c w2)))))"

text \<open>
  \<^verbatim>\<open>DefaultParams\<close> (lines 42-50), given the channel that \<^verbatim>\<open>make\<close> creates, and
  \<^verbatim>\<open>Lookup\<close> (lines 84-88).
\<close>

definition DefaultParams :: "chan \<Rightarrow> string \<Rightarrow> QueryParam" where
  "DefaultParams ch service =
     \<lparr>Service = service, Domain' = ''local'', Timeout = Second, Interface = None,
      QueryType = TypeANY, Entries = ch\<rparr>"

definition Lookup :: "env \<Rightarrow> chan \<Rightarrow> string \<Rightarrow> chan \<Rightarrow> world \<Rightarrow> outcome \<times> QueryParam \<times> world" where
  "Lookup e ch service entries w = Query e ((DefaultParams ch service)\<lparr>Entries := entries\<rparr>) w"

text \<open>
  Two notions used to state the properties: the messages the loop takes before the
  timer is selected, and whether the set-up of \<^verbatim>\<open>Query\<close> (lines 58-69) goes through.
\<close>

fun taken :: "event list \<Rightarrow> Msg list" where
  "taken [] = []"
| "taken (Recv resp # es) = resp # taken es"
| "taken (Finish # es) = []"

definition setup_ok :: "env \<Rightarrow> QueryParam \<Rightarrow> world \<Rightarrow> bool" where
  "setup_ok e params w =
     (case fst (newClient e w) of
        Inl err \<Rightarrow> False
      | Inr c \<Rightarrow>
          (case Interface params of
             None \<Rightarrow> True
           | Some ifi \<Rightarrow> setInterface e c ifi = None))"

section \<open>Concrete scenarios\<close>

text \<open>
  The surroundings used to run the model on concrete inputs: both stacks bind (sockets
  4 and 6), only IPv6 binds, or none does; a primitive that accepts every interface on
  a live socket and cannot set the option on a nil one; a codec that packs a question
  to the bytes of its name, or fails on it.
\<close>

definition both_stacks :: "family \<Rightarrow> error + conn" where
  "both_stacks f = (case f of udp4 \<Rightarrow> Inr 4 | udp6 \<Rightarrow> Inr 6)"

definition only_udp6 :: "family \<Rightarrow> error + conn" where
  "only_udp6 f = (case f of udp4 \<Rightarrow> Inl (External ''listen udp4: address not available'') | udp6 \<Rightarrow> Inr 6)"

definition no_stack :: "family \<Rightarrow> error + conn" where
  "no_stack f = Inl (External ''listen: address not available'')"

definition live_only :: "family \<Rightarrow> conn option \<Rightarrow> iface \<Rightarrow> error option" where
  "live_only f l ifi = (case l of None \<Rightarrow> Some (External ''invalid connection'') | Some c \<Rightarrow> None)"

definition pack_name :: "Msg \<Rightarrow> error + byte list" where
  "pack_name m = Inr (map of_char (concat (map q_Name (Question m))))"

definition pack_fails :: "Msg \<Rightarrow> error + byte list" where
  "pack_fails m = Inl (External ''dns: bad rdata'')"

definition scenario ::
  "(family \<Rightarrow> error + conn) \<Rightarrow> (Msg \<Rightarrow> error + byte list) \<Rightarrow> event list \<Rightarrow> env" where
  "scenario binds pack evs =
     \<lparr>ListenMulticastUDP = binds, SetMulticastInterface = live_only, Pack = pack,
      Unpack = (\<lambda>buf. Inl (External ''dns: bad message'')), new_Id = 0, selected = evs\<rparr>"

definition world0 :: world where
  "world0 = \<lparr>logged = [], written = [], sink = [], closed_conns = []\<rparr>"

definition answer :: "string \<Rightarrow> 16 word \<Rightarrow> RR" where
  "answer n t = \<lparr>hdr_Name = n, hdr_Rrtype = t, hdr_Class = 1, hdr_Ttl = 120, rdata = []\<rparr>"

definition response :: "RR list \<Rightarrow> Msg" where
  "response rrs = \<lparr>Id' = 0, RecursionDesired = False, Question = [], Answer = rrs\<rparr>"

section \<open>Properties of the aggregator\<close>

lemma ensureName_bound:
  "inprogress (snd (ensureName r name)) name = Some (fst (ensureName r name))"
  by (simp add: ensureName_def Let_def split: option.splits)

lemma ensureName_present:
  "inprogress r name = Some p \<Longrightarrow> ensureName r name = (p, r)"
  by (simp add: ensureName_def)

lemma alias_src:
  "inprogress (alias r src dst) src = Some (fst (ensureName r src))"
  using ensureName_bound [of r src]
  by (cases "ensureName r src") (simp add: alias_def)

lemma alias_dst:
  "inprogress (alias r src dst) dst = Some (fst (ensureName r src))"
  by (simp add: alias_def split: prod.splits)

lemma alias_other:
  "k \<noteq> src \<Longrightarrow> k \<noteq> dst \<Longrightarrow> inprogress (alias r src dst) k = inprogress r k"
  by (simp add: alias_def ensureName_def Let_def split: prod.splits option.splits)

lemma alias_heap_old:
  "a < length (heap r) \<Longrightarrow> heap (alias r src dst) ! a = heap r ! a"
  by (auto simp: alias_def ensureName_def Let_def nth_append split: prod.splits option.splits)

lemma modify_inprogress:
  "modify r p f = Some r' \<Longrightarrow> inprogress r' = inprogress r"
  by (auto simp: modify_def split: ref.splits if_splits)

lemma modify_load:
  "modify r p f = Some r' \<Longrightarrow> load r' p = map_option f (load r p)"
  by (auto simp: modify_def load_def split: ref.splits if_splits)

lemma alias_created_is_live:
  "inprogress r src = None \<Longrightarrow>
   load (alias r src dst) (fst (ensureName r src)) =
     Some (new_entry src)"
  by (simp add: alias_def ensureName_def Let_def load_def)

text \<open>
  C7. After \<open>alias r A B\<close> the lookup-or-create of \<open>B\<close> and of \<open>A\<close> return the same
  pointer and create nothing, for every registry \<open>r\<close> (whether \<open>A\<close> was bound in
  \<open>r\<close> or is created by the call). A mutation \<open>f\<close> done through the pointer
  obtained for \<open>A\<close> is what a later lookup-or-create of \<open>B\<close> reads.
\<close>

theorem alias_shares_entry:
  "ensureName (alias r A B) A = (fst (ensureName r A), alias r A B) \<and>
   ensureName (alias r A B) B = (fst (ensureName r A), alias r A B) \<and>
   (\<forall>f r'. modify (alias r A B) (fst (ensureName (alias r A B) A)) f = Some r' \<longrightarrow>
      ensureName r' B = (fst (ensureName (alias r A B) A), r') \<and>
      load r' (fst (ensureName r' B)) =
        map_option f (load (alias r A B) (fst (ensureName (alias r A B) A))) \<and>
      load r' (fst (ensureName r' B)) \<noteq> None)"
proof -
  let ?r1 = "alias r A B" and ?p = "fst (ensureName r A)"
  have a: "ensureName ?r1 A = (?p, ?r1)"
    by (rule ensureName_present) (rule alias_src)
  have b: "ensureName ?r1 B = (?p, ?r1)"
    by (rule ensureName_present) (rule alias_dst)
  have c: "ensureName r' B = (?p, r') \<and> load r' (fst (ensureName r' B)) = map_option f (load ?r1 ?p)
           \<and> load r' (fst (ensureName r' B)) \<noteq> None"
    if m: "modify ?r1 ?p f = Some r'" for f r'
  proof -
    have "inprogress r' B = Some ?p"
      using modify_inprogress [OF m] alias_dst [of r A B] by simp
    then have e: "ensureName r' B = (?p, r')"
      by (rule ensureName_present)
    have l: "load r' ?p = map_option f (load ?r1 ?p)"
      by (rule modify_load [OF m])
    have "load r' ?p \<noteq> None"
      using m by (auto simp: modify_def load_def split: ref.splits if_splits)
    with e l show ?thesis by simp
  qed
  have p: "fst (ensureName ?r1 A) = ?p"
    by (simp add: a)
  show ?thesis
    unfolding p using a b c by blast
qed

theorem alias_shares_entry_witness:
  "\<exists>r'. modify (alias \<lparr>inprogress = Map.empty, heap = []\<rparr> ''svc'' ''host'')
           (fst (ensureName (alias \<lparr>inprogress = Map.empty, heap = []\<rparr> ''svc'' ''host'') ''svc''))
           (\<lambda>e. e\<lparr>Port := 80\<rparr>) = Some r' \<and>
        map_option Port (load r' (fst (ensureName r' ''host''))) = Some 80"
proof -
  let ?r1 = "alias \<lparr>inprogress = Map.empty, heap = []\<rparr> ''svc'' ''host''"
  let ?r' = "\<lparr>inprogress = [''svc'' \<mapsto> Ref 0, ''host'' \<mapsto> Ref 0],
             heap = [(new_entry ''svc'')\<lparr>Port := 80\<rparr>]\<rparr>"
  have m: "modify ?r1 (fst (ensureName ?r1 ''svc'')) (\<lambda>e. e\<lparr>Port := 80\<rparr>) = Some ?r'"
    by (simp add: alias_def ensureName_def modify_def Let_def)
  have l: "load ?r1 (fst (ensureName ?r1 ''svc''))
             = Some (new_entry ''svc'')"
    by (simp add: alias_def ensureName_def load_def Let_def)
  note t = alias_shares_entry [of "\<lparr>inprogress = Map.empty, heap = []\<rparr>" "''svc''" "''host''",
      THEN conjunct2, THEN conjunct2, rule_format, OF m]
  from t have "load ?r' (fst (ensureName ?r' ''host''))
      = map_option (\<lambda>e. e\<lparr>Port := 80\<rparr>) (load ?r1 (fst (ensureName ?r1 ''svc'')))"
    by blast
  then have "map_option Port (load ?r' (fst (ensureName ?r' ''host''))) = Some 80"
    by (simp only: l) (simp add: new_entry_def)
  with m show ?thesis by blast
qed

text \<open>
  C10. \<open>alias r src dst\<close> binds \<open>dst\<close> to the entry of \<open>src\<close> whatever \<open>dst\<close> held
  before: a pointer \<open>q\<close> that \<open>dst\<close> held and that is not the entry of \<open>src\<close> is no
  longer what \<open>dst\<close> resolves to, and when no other key held \<open>q\<close> it is gone from the
  registry altogether. The key \<open>src\<close> is bound to its entry (unchanged when it was
  bound already, and then nothing is allocated), and every key other than \<open>src\<close> and
  \<open>dst\<close> maps to what it mapped to before (bound or not).
\<close>

theorem alias_rebinds_dst:
  "inprogress (alias r src dst) dst = Some (fst (ensureName r src)) \<and>
   inprogress (alias r src dst) src = Some (fst (ensureName r src)) \<and>
   (\<forall>k. k \<noteq> src \<and> k \<noteq> dst \<longrightarrow> inprogress (alias r src dst) k = inprogress r k) \<and>
   (\<forall>q. inprogress r dst = Some q \<and> q \<noteq> fst (ensureName r src) \<longrightarrow>
      inprogress (alias r src dst) dst \<noteq> Some q \<and>
      ((\<forall>k. k \<noteq> dst \<longrightarrow> inprogress r k \<noteq> Some q) \<longrightarrow>
         q \<notin> ran (inprogress (alias r src dst)))) \<and>
   (\<forall>p. inprogress r src = Some p \<longrightarrow>
      fst (ensureName r src) = p \<and> heap (alias r src dst) = heap r)"
proof -
  let ?p = "fst (ensureName r src)"
  have gone: "q \<notin> ran (inprogress (alias r src dst))"
    if q: "q \<noteq> ?p" and only: "\<forall>k. k \<noteq> dst \<longrightarrow> inprogress r k \<noteq> Some q" for q
  proof
    assume "q \<in> ran (inprogress (alias r src dst))"
    then obtain k where k: "inprogress (alias r src dst) k = Some q"
      by (auto simp: ran_def)
    have "k \<noteq> dst" using k q alias_dst [of r src dst] by auto
    moreover have "k \<noteq> src" using k q alias_src [of r src dst] by auto
    ultimately have "inprogress r k = Some q"
      using k alias_other [of k src dst r] by simp
    with only \<open>k \<noteq> dst\<close> show False by blast
  qed
  have old: "?p = p \<and> heap (alias r src dst) = heap r" if "inprogress r src = Some p" for p
    using that by (simp add: alias_def ensureName_def)
  show ?thesis
    using alias_dst [of r src dst] alias_src [of r src dst] alias_other [of _ src dst r] gone old
    by auto
qed

theorem alias_rebinds_dst_witness:
  "inprogress (alias \<lparr>inprogress = [''a'' \<mapsto> Ref 0, ''b'' \<mapsto> Ref 1], heap = [new_entry ''a'', new_entry ''b'']\<rparr> ''a'' ''b'') ''b''
     = Some (Ref 0) \<and>
   inprogress (alias \<lparr>inprogress = [''a'' \<mapsto> Ref 0, ''b'' \<mapsto> Ref 1], heap = [new_entry ''a'', new_entry ''b'']\<rparr> ''a'' ''b'') ''c''
     = None \<and>
   Ref 1 \<notin> ran (inprogress
     (alias \<lparr>inprogress = [''a'' \<mapsto> Ref 0, ''b'' \<mapsto> Ref 1], heap = [new_entry ''a'', new_entry ''b'']\<rparr> ''a'' ''b'')) \<and>
   heap (alias \<lparr>inprogress = [''a'' \<mapsto> Ref 0, ''b'' \<mapsto> Ref 1], heap = [new_entry ''a'', new_entry ''b'']\<rparr> ''a'' ''b'')
     = [new_entry ''a'', new_entry ''b'']"
proof -
  let ?r = "\<lparr>inprogress = [''a'' \<mapsto> Ref 0, ''b'' \<mapsto> Ref 1], heap = [new_entry ''a'', new_entry ''b'']\<rparr>"
  have p: "fst (ensureName ?r ''a'') = Ref 0"
    by (simp add: ensureName_def)
  have h1: "''c'' \<noteq> ''a'' \<and> ''c'' \<noteq> ''b''"
    by simp
  have h2: "inprogress ?r ''b'' = Some (Ref 1) \<and> Ref 1 \<noteq> fst (ensureName ?r ''a'')"
    by (simp add: ensureName_def)
  have h3: "\<forall>k. k \<noteq> ''b'' \<longrightarrow> inprogress ?r k \<noteq> Some (Ref 1)"
    by simp
  have h4: "inprogress ?r ''a'' = Some (Ref 0)"
    by simp
  note t = alias_rebinds_dst [of ?r "''a''" "''b''"]
  note t1 = t [THEN conjunct1]
  note t3 = t [THEN conjunct2, THEN conjunct2, THEN conjunct1, THEN spec, THEN mp, OF h1]
  note t4 = t [THEN conjunct2, THEN conjunct2, THEN conjunct2, THEN conjunct1,
      THEN spec, THEN mp, OF h2, THEN conjunct2, THEN mp, OF h3]
  note t5 = t [THEN conjunct2, THEN conjunct2, THEN conjunct2, THEN conjunct2,
      THEN spec, THEN mp, OF h4, THEN conjunct2]
  have "inprogress (alias ?r ''a'' ''b'') ''b'' = Some (Ref 0)"
    using t1 by (simp only: p)
  moreover have "inprogress (alias ?r ''a'' ''b'') ''c'' = None"
    using t3 by simp
  ultimately show ?thesis
    using t4 t5 by simp
qed

section \<open>Properties of the question name\<close>

lemma Replace_char:
  "Replace s [x] new = concat (map (\<lambda>c. if c = x then new else [c]) s)"
  by (induction s) simp_all

lemma dropWhile_replicate_same:
  "dropWhile (\<lambda>c. c = x) (replicate n x @ ys) = dropWhile (\<lambda>c. c = x) ys"
  by (induction n) simp_all

lemma takeWhile_same_replicate:
  "takeWhile (\<lambda>c. c = x) xs = replicate (length (takeWhile (\<lambda>c. c = x) xs)) x"
  by (induction xs) simp_all

lemma trimDot_append_dots:
  "trimDot (s @ replicate n (CHR ''.'')) = trimDot s"
  by (simp add: trimDot_def dropWhile_replicate_same)

lemma trimDot_no_trailing_dot:
  "trimDot s = [] \<or> last (trimDot s) \<noteq> CHR ''.''"
proof (cases "dropWhile (\<lambda>c. c = CHR ''.'') (rev s)")
  case Nil
  then show ?thesis by (simp add: trimDot_def)
next
  case (Cons a as)
  then have "a \<noteq> CHR ''.''"
    using hd_dropWhile [of "\<lambda>c. c = CHR ''.''" "rev s"] by auto
  with Cons show ?thesis by (simp add: trimDot_def)
qed

lemma trimDot_decomp:
  "\<exists>n. s = trimDot s @ replicate n (CHR ''.'')"
proof -
  have "rev s = takeWhile (\<lambda>c. c = CHR ''.'') (rev s) @ dropWhile (\<lambda>c. c = CHR ''.'') (rev s)"
    by simp
  moreover have "takeWhile (\<lambda>c. c = CHR ''.'') (rev s) = replicate (length (takeWhile (\<lambda>c. c = CHR ''.'') (rev s))) (CHR ''.'')"
    by (rule takeWhile_same_replicate)
  ultimately have "rev (rev s) = rev (dropWhile (\<lambda>c. c = CHR ''.'') (rev s)) @ replicate (length (takeWhile (\<lambda>c. c = CHR ''.'') (rev s))) (CHR ''.'')"
    by (metis rev_append rev_replicate)
  then show ?thesis by (auto simp: trimDot_def)
qed

text \<open>
  C6. The question name is the service without its trailing dots, a dot, the domain
  without its trailing dots and a final dot, with every space replaced by a backslash
  and a space. The trimmed service and domain are the given strings less a run of dots
  at the end, and neither ends in a dot; dots appended to the service or to the domain
  leave the name as it is. (\<open>trimDot\<close> is modelled from the spec.)
\<close>

theorem serviceAddr_name:
  "serviceAddr params =
     concat (map (\<lambda>c. if c = CHR '' '' then [CHR 0x5C, CHR '' ''] else [c])
       (trimDot (Service params) @ ''.'' @ trimDot (Domain' params) @ ''.'')) \<and>
   (\<exists>n. Service params = trimDot (Service params) @ replicate n (CHR ''.'')) \<and>
   (\<exists>n. Domain' params = trimDot (Domain' params) @ replicate n (CHR ''.'')) \<and>
   \<not> (trimDot (Service params) \<noteq> [] \<and> last (trimDot (Service params)) = CHR ''.'') \<and>
   \<not> (trimDot (Domain' params) \<noteq> [] \<and> last (trimDot (Domain' params)) = CHR ''.'') \<and>
   serviceAddr (params\<lparr>Service := Service params @ replicate i (CHR ''.''),
                       Domain' := Domain' params @ replicate j (CHR ''.'')\<rparr>) = serviceAddr params"
proof -
  have a: "serviceAddr params =
     concat (map (\<lambda>c. if c = CHR '' '' then [CHR 0x5C, CHR '' ''] else [c])
       (trimDot (Service params) @ ''.'' @ trimDot (Domain' params) @ ''.''))"
    unfolding serviceAddr_def by (rule Replace_char)
  have b: "serviceAddr (params\<lparr>Service := Service params @ replicate i (CHR ''.''),
                       Domain' := Domain' params @ replicate j (CHR ''.'')\<rparr>) = serviceAddr params"
    by (simp add: serviceAddr_def trimDot_append_dots)
  show ?thesis
    using a b trimDot_decomp [of "Service params"] trimDot_decomp [of "Domain' params"]
      trimDot_no_trailing_dot [of "Service params"] trimDot_no_trailing_dot [of "Domain' params"]
    by blast
qed

theorem serviceAddr_name_witness:
  "serviceAddr \<lparr>Service = ''My Printer._http._tcp.'', Domain' = ''local..'', Timeout = 0,
                 Interface = None, QueryType = 255, Entries = 0\<rparr>
     = ''My'' @ [CHR 0x5C] @ '' Printer._http._tcp.local.''"
  using serviceAddr_name [of "\<lparr>Service = ''My Printer._http._tcp.'', Domain' = ''local..'',
      Timeout = 0, Interface = None, QueryType = 255, Entries = 0\<rparr>", THEN conjunct1]
  by (simp add: trimDot_def)

section \<open>Properties of the query loop\<close>

lemma forward_filter:
  "forward addr qt rrs snk =
     snk @ filter (\<lambda>rr. hdr_Name rr = addr \<and> (qt = TypeANY \<or> hdr_Rrtype rr = qt)) rrs"
  by (induction rrs arbitrary: snk) simp_all

lemma listen_sink:
  "snd (listen addr qt es snk) =
     snk @ concat (map (\<lambda>resp. filter (\<lambda>rr. hdr_Name rr = addr \<and> (qt = TypeANY \<or> hdr_Rrtype rr = qt)) (Answer resp)) (taken es))"
  by (induction addr qt es snk rule: listen.induct) (simp_all add: forward_filter)

lemma listen_outcome:
  "fst (listen addr qt es snk) = (if Finish \<in> set es then Returned None else Blocked)"
  by (induction addr qt es snk rule: listen.induct) simp_all

lemma sendQuery_ok:
  "Pack e q = Inr buf \<Longrightarrow> fst (sendQuery e c q w) = None \<and> sink (snd (sendQuery e c q w)) = sink w"
  by (simp add: sendQuery_def Let_def split: option.splits)

lemma sendQuery_fail:
  "Pack e q = Inl err \<Longrightarrow> sendQuery e c q w = (Some err, w)"
  by (simp add: sendQuery_def)

lemma sendQuery_written:
  "Pack e q = Inr buf \<Longrightarrow>
   written (snd (sendQuery e c q w)) =
     written w @ (case ipv4List c of None \<Rightarrow> [] | Some l \<Rightarrow> [(l, udp4, buf)])
               @ (case ipv6List c of None \<Rightarrow> [] | Some l \<Rightarrow> [(l, udp6, buf)])"
  by (simp add: sendQuery_def Let_def split: option.splits)

lemma query_sent:
  assumes "Pack e (SetQuestion new_Msg (new_Id e) (serviceAddr params) (QueryType params)) = Inr buf"
  shows "query e c params w =
     (fst (listen (serviceAddr params) (QueryType params) (selected e) (sink w)),
      (snd (sendQuery e c (SetQuestion new_Msg (new_Id e) (serviceAddr params) (QueryType params)) w))
        \<lparr>sink := snd (listen (serviceAddr params) (QueryType params) (selected e) (sink w))\<rparr>)"
proof -
  let ?q = "SetQuestion new_Msg (new_Id e) (serviceAddr params) (QueryType params)"
  obtain w1 where s: "sendQuery e c ?q w = (None, w1)"
    using sendQuery_ok [OF assms, of c w] by (cases "sendQuery e c ?q w") auto
  then have "sink w1 = sink w"
    using sendQuery_ok [OF assms, of c w] by simp
  with s show ?thesis
    by (simp add: query_def Let_def split: prod.splits)
qed

lemma query_not_sent:
  assumes "Pack e (SetQuestion new_Msg (new_Id e) (serviceAddr params) (QueryType params)) = Inl err"
  shows "query e c params w = (Returned None, w)"
  using sendQuery_fail [OF assms] by (simp add: query_def Let_def)

lemma demo_name:
  "serviceAddr (DefaultParams 0 ''_http._tcp'') = ''_http._tcp.local.''"
  by (simp add: serviceAddr_def DefaultParams_def trimDot_def)

lemma demo_qtype:
  "QueryType (DefaultParams ch service) = TypeANY"
  by (simp add: DefaultParams_def)

lemma scenario_selected:
  "selected (scenario binds pack evs) = evs"
  by (simp add: scenario_def)

lemma demo_pack:
  "Pack (scenario binds pack_name evs)
     (SetQuestion new_Msg (new_Id (scenario binds pack_name evs))
        (serviceAddr (DefaultParams 0 ''_http._tcp'')) (QueryType (DefaultParams 0 ''_http._tcp'')))
   = Inr (map of_char ''_http._tcp.local.'')"
  by (simp add: demo_name scenario_def pack_name_def SetQuestion_def new_Msg_def)

text \<open>
  C2. Once the question is packed, the records sent on the sink by \<open>query\<close> are, in
  order, the answers of the messages taken before the timer is selected whose name is
  the question name and whose type is the requested type (any type when the requested
  type is \<open>TypeANY\<close>): the equation is between lists, so an answer is sent once for
  each of its occurrences, repeated or not, and no other answer is sent.
\<close>

theorem query_forwards_matching:
  assumes "Pack e (SetQuestion new_Msg (new_Id e) (serviceAddr params) (QueryType params)) = Inr buf"
  shows "sink (snd (query e c params w)) =
     sink w @ concat (map (\<lambda>resp. filter (\<lambda>rr. hdr_Name rr = serviceAddr params \<and>
                  (QueryType params = TypeANY \<or> hdr_Rrtype rr = QueryType params)) (Answer resp))
               (taken (selected e)))"
  by (simp add: query_sent [OF assms] listen_sink)

theorem query_forwards_matching_witness:
  "sink (snd (query
      (scenario both_stacks pack_name
         [Recv (response [answer ''_http._tcp.local.'' 16, answer ''_ssh._tcp.local.'' 16,
                          answer ''_http._tcp.local.'' 16]),
          Recv (response [answer ''_http._tcp.local.'' 1]),
          Finish,
          Recv (response [answer ''_http._tcp.local.'' 33])])
      \<lparr>ipv4List = Some 4, ipv6List = Some 6, closed = False\<rparr>
      (DefaultParams 0 ''_http._tcp'') world0))
   = [answer ''_http._tcp.local.'' 16, answer ''_http._tcp.local.'' 16,
      answer ''_http._tcp.local.'' 1]"
proof -
  let ?evs = "[Recv (response [answer ''_http._tcp.local.'' 16, answer ''_ssh._tcp.local.'' 16,
                          answer ''_http._tcp.local.'' 16]),
          Recv (response [answer ''_http._tcp.local.'' 1]),
          Finish,
          Recv (response [answer ''_http._tcp.local.'' 33])]"
  have p: "Pack (scenario both_stacks pack_name ?evs)
     (SetQuestion new_Msg (new_Id (scenario both_stacks pack_name ?evs))
        (serviceAddr (DefaultParams 0 ''_http._tcp'')) (QueryType (DefaultParams 0 ''_http._tcp'')))
     = Inr (map of_char ''_http._tcp.local.'')"
    by (rule demo_pack)
  show ?thesis
    unfolding query_forwards_matching [OF p] demo_name demo_qtype scenario_selected
    by (simp add: world0_def response_def answer_def)
qed

text \<open>
  C3. Once the question is packed and written, \<open>query\<close> returns exactly when the timer
  is among the events selected, and then it returns nil; as long as only messages arrive
  it stays in the loop. Whatever a receiver reads (read errors and datagrams that do not
  unpack included), the messages it delivers never end the loop.
\<close>

theorem query_until_timeout:
  assumes "Pack e (SetQuestion new_Msg (new_Id e) (serviceAddr params) (QueryType params)) = Inr buf"
  shows "fst (query e c params w) = (if Finish \<in> set (selected e) then Returned None else Blocked) \<and>
         fst (listen addr qt (map Recv (snd (recv e l reads))) snk) = Blocked"
  by (simp add: query_sent [OF assms] listen_outcome image_iff)

theorem query_until_timeout_witness:
  "fst (query (scenario both_stacks pack_name [Recv (response []), Finish])
         \<lparr>ipv4List = Some 4, ipv6List = Some 6, closed = False\<rparr>
         (DefaultParams 0 ''_http._tcp'') world0) = Returned None \<and>
   fst (query (scenario both_stacks pack_name [Recv (response []), Recv (response [])])
         \<lparr>ipv4List = Some 4, ipv6List = Some 6, closed = False\<rparr>
         (DefaultParams 0 ''_http._tcp'') world0) = Blocked"
proof -
  have p: "Pack (scenario both_stacks pack_name evs)
     (SetQuestion new_Msg (new_Id (scenario both_stacks pack_name evs))
        (serviceAddr (DefaultParams 0 ''_http._tcp'')) (QueryType (DefaultParams 0 ''_http._tcp'')))
     = Inr (map of_char ''_http._tcp.local.'')" for evs
    by (rule demo_pack)
  show ?thesis
    by (simp add: query_until_timeout [OF p, THEN conjunct1] scenario_selected)
qed

section \<open>Properties of the transport\<close>

lemma newClient_cases:
  "newClient e w =
    (case (ListenMulticastUDP e udp4, ListenMulticastUDP e udp6) of
       (Inl e4, Inl e6) \<Rightarrow>
         (Inl (Errorf ''Failed to bind to any udp port!''),
          log_Printf ''[ERR] mdns: Failed to bind to udp6 port: %v'' e6
            (log_Printf ''[ERR] mdns: Failed to bind to udp4 port: %v'' e4 w))
     | (Inl e4, Inr l6) \<Rightarrow>
         (Inr \<lparr>ipv4List = None, ipv6List = Some l6, closed = False\<rparr>,
          log_Printf ''[ERR] mdns: Failed to bind to udp4 port: %v'' e4 w)
     | (Inr l4, Inl e6) \<Rightarrow>
         (Inr \<lparr>ipv4List = Some l4, ipv6List = None, closed = False\<rparr>,
          log_Printf ''[ERR] mdns: Failed to bind to udp6 port: %v'' e6 w)
     | (Inr l4, Inr l6) \<Rightarrow>
         (Inr \<lparr>ipv4List = Some l4, ipv6List = Some l6, closed = False\<rparr>, w))"
  by (simp add: newClient_def Let_def conn_of_def split: sum.splits)

lemma log_Printf_frame:
  "sink (log_Printf f err w) = sink w \<and> written (log_Printf f err w) = written w
   \<and> closed_conns (log_Printf f err w) = closed_conns w"
  by (simp add: log_Printf_def)

lemma newClient_frame:
  "sink (snd (newClient e w)) = sink w \<and> written (snd (newClient e w)) = written w"
  by (simp add: newClient_cases log_Printf_frame split: sum.splits)

lemma Close_frame:
  "sink (snd (Close c w)) = sink w \<and> written (snd (Close c w)) = written w"
  by (simp add: Close_def Let_def split: option.splits)

lemma Query_no_client:
  "fst (newClient e w) = Inl err \<Longrightarrow>
   Query e params w = (Returned (Some err), params, snd (newClient e w))"
  by (cases "newClient e w") (simp add: Query_def)

text \<open>
  C4. \<open>newClient\<close> fails exactly when both binds fail, with the error of line 115;
  \<open>Query\<close> then returns that error and neither sends on the sink nor writes a
  datagram. When exactly one bind fails the client is created with the other socket
  alone, \<open>sendQuery\<close> writes to that socket only, and the receiver of the nil socket
  delivers nothing.
\<close>

theorem newClient_both_or_degraded:
  "((\<exists>err. fst (newClient e w) = Inl err) \<longleftrightarrow>
      isl (ListenMulticastUDP e udp4) \<and> isl (ListenMulticastUDP e udp6)) \<and>
   (isl (ListenMulticastUDP e udp4) \<and> isl (ListenMulticastUDP e udp6) \<longrightarrow>
      fst (newClient e w) = Inl (Errorf ''Failed to bind to any udp port!'') \<and>
      fst (Query e params w) = Returned (Some (Errorf ''Failed to bind to any udp port!'')) \<and>
      sink (snd (snd (Query e params w))) = sink w \<and>
      written (snd (snd (Query e params w))) = written w) \<and>
   (\<forall>l6. isl (ListenMulticastUDP e udp4) \<and> ListenMulticastUDP e udp6 = Inr l6 \<longrightarrow>
      fst (newClient e w) = Inr \<lparr>ipv4List = None, ipv6List = Some l6, closed = False\<rparr> \<and>
      (\<forall>q buf w'. Pack e q = Inr buf \<longrightarrow>
         written (snd (sendQuery e \<lparr>ipv4List = None, ipv6List = Some l6, closed = False\<rparr> q w'))
           = written w' @ [(l6, udp6, buf)])) \<and>
   (\<forall>l4. ListenMulticastUDP e udp4 = Inr l4 \<and> isl (ListenMulticastUDP e udp6) \<longrightarrow>
      fst (newClient e w) = Inr \<lparr>ipv4List = Some l4, ipv6List = None, closed = False\<rparr> \<and>
      (\<forall>q buf w'. Pack e q = Inr buf \<longrightarrow>
         written (snd (sendQuery e \<lparr>ipv4List = Some l4, ipv6List = None, closed = False\<rparr> q w'))
           = written w' @ [(l4, udp4, buf)])) \<and>
   recv e None reads = ([], [])"
proof -
  have iff: "(\<exists>err. fst (newClient e w) = Inl err) \<longleftrightarrow>
      isl (ListenMulticastUDP e udp4) \<and> isl (ListenMulticastUDP e udp6)"
    by (auto simp: newClient_cases isl_def split: sum.splits)
  have both: "fst (newClient e w) = Inl (Errorf ''Failed to bind to any udp port!'') \<and>
      fst (Query e params w) = Returned (Some (Errorf ''Failed to bind to any udp port!'')) \<and>
      sink (snd (snd (Query e params w))) = sink w \<and>
      written (snd (snd (Query e params w))) = written w"
    if "isl (ListenMulticastUDP e udp4) \<and> isl (ListenMulticastUDP e udp6)"
  proof -
    from that have n: "fst (newClient e w) = Inl (Errorf ''Failed to bind to any udp port!'')"
      by (auto simp: newClient_cases isl_def)
    show ?thesis
      by (simp add: n Query_no_client [OF n] newClient_frame)
  qed
  have six: "fst (newClient e w) = Inr \<lparr>ipv4List = None, ipv6List = Some l6, closed = False\<rparr>"
    if "isl (ListenMulticastUDP e udp4) \<and> ListenMulticastUDP e udp6 = Inr l6" for l6
    using that by (auto simp: newClient_cases isl_def)
  have four: "fst (newClient e w) = Inr \<lparr>ipv4List = Some l4, ipv6List = None, closed = False\<rparr>"
    if "ListenMulticastUDP e udp4 = Inr l4 \<and> isl (ListenMulticastUDP e udp6)" for l4
    using that by (auto simp: newClient_cases isl_def)
  have r: "recv e None reads = ([], [])"
    by (simp add: recv_def)
  show ?thesis
    using iff both six four r by (simp add: sendQuery_written)
qed

theorem newClient_both_or_degraded_witness:
  "fst (newClient (scenario only_udp6 pack_name [Finish]) world0)
     = Inr \<lparr>ipv4List = None, ipv6List = Some 6, closed = False\<rparr> \<and>
   fst (Query (scenario no_stack pack_name [Finish]) (DefaultParams 0 ''_http._tcp'') world0)
     = Returned (Some (Errorf ''Failed to bind to any udp port!'')) \<and>
   sink (snd (snd (Query (scenario no_stack pack_name [Finish])
     (DefaultParams 0 ''_http._tcp'') world0))) = [] \<and>
   written (snd (sendQuery (scenario only_udp6 pack_name [Finish])
     \<lparr>ipv4List = None, ipv6List = Some 6, closed = False\<rparr>
     (SetQuestion new_Msg 0 ''a.'' TypeANY) world0)) = [(6, udp6, map of_char ''a.'')]"
proof -
  let ?e6 = "scenario only_udp6 pack_name [Finish]" and ?e0 = "scenario no_stack pack_name [Finish]"
  have hp: "Pack ?e6 (SetQuestion new_Msg 0 ''a.'' TypeANY) = Inr (map of_char ''a.'')"
    by (simp add: scenario_def pack_name_def SetQuestion_def new_Msg_def)
  have h6: "isl (ListenMulticastUDP ?e6 udp4) \<and> ListenMulticastUDP ?e6 udp6 = Inr 6"
    by (simp add: scenario_def only_udp6_def)
  have h0: "isl (ListenMulticastUDP ?e0 udp4) \<and> isl (ListenMulticastUDP ?e0 udp6)"
    by (simp add: scenario_def no_stack_def)
  note t6 = newClient_both_or_degraded [of ?e6 world0, THEN conjunct2, THEN conjunct2,
      THEN conjunct1, THEN spec, THEN mp, OF h6, THEN conjunct1]
  note t0 = newClient_both_or_degraded [of ?e0 world0 "DefaultParams 0 ''_http._tcp''",
      THEN conjunct2, THEN conjunct1, THEN mp, OF h0]
  note t6w = newClient_both_or_degraded [of ?e6 world0, THEN conjunct2, THEN conjunct2,
      THEN conjunct1, THEN spec, THEN mp, OF h6, THEN conjunct2, THEN spec, THEN spec,
      THEN spec, THEN mp, OF hp, of world0]
  from t6 t0 t6w show ?thesis
    by (simp add: world0_def)
qed

text \<open>
  C5. With only the IPv6 socket bound, \<open>setInterface\<close> still hands the nil IPv4 socket
  to the primitive (lines 149-150 have no nil check, unlike \<open>Close\<close>, \<open>sendQuery\<close> and
  \<open>recv\<close>). With a primitive that accepts the interface on every live socket and
  cannot set it on a nil one, the call fails, and so does \<open>Query\<close> with an interface.
\<close>

theorem setInterface_degraded_fails:
  "setInterface (scenario only_udp6 pack_name [Finish])
     \<lparr>ipv4List = None, ipv6List = Some 6, closed = False\<rparr> 1
     = Some (External ''invalid connection'') \<and>
   fst (newClient (scenario only_udp6 pack_name [Finish]) world0)
     = Inr \<lparr>ipv4List = None, ipv6List = Some 6, closed = False\<rparr> \<and>
   fst (Query (scenario only_udp6 pack_name [Finish])
          ((DefaultParams 0 ''_http._tcp'')\<lparr>Interface := Some 1\<rparr>) world0)
     = Returned (Some (External ''invalid connection''))"
  by (simp add: Query_def newClient_cases scenario_def only_udp6_def live_only_def
       setInterface_def DefaultParams_def)

section \<open>Properties of Query\<close>

lemma ensureDefaults_fields:
  "Domain' (ensureDefaults p) = (if Domain' p = [] then ''local'' else Domain' p) \<and>
   Timeout (ensureDefaults p) = (if Timeout p = 0 then 1000000000 else Timeout p) \<and>
   Service (ensureDefaults p) = Service p \<and> Interface (ensureDefaults p) = Interface p \<and>
   QueryType (ensureDefaults p) = QueryType p \<and> Entries (ensureDefaults p) = Entries p"
  by (simp add: ensureDefaults_def Let_def Second_def)

lemma Query_params:
  "fst (snd (Query e params w)) = (if setup_ok e params w then ensureDefaults params else params)"
  by (cases "newClient e w")
     (auto simp: Query_def setup_ok_def split: sum.splits option.splits prod.splits outcome.splits)

lemma Query_setup_ok:
  "setup_ok e params w \<Longrightarrow>
   \<exists>c w1. newClient e w = (Inr c, w1) \<and>
      fst (Query e params w) = fst (query e c (ensureDefaults params) w1) \<and>
      sink (snd (snd (Query e params w))) = sink (snd (query e c (ensureDefaults params) w1))"
  by (cases "newClient e w")
     (auto simp: Query_def setup_ok_def Close_frame
           split: sum.splits option.splits prod.splits outcome.splits)

lemma Query_setup_fails:
  "\<not> setup_ok e params w \<Longrightarrow>
   (\<exists>err. fst (Query e params w) = Returned (Some err)) \<and>
   sink (snd (snd (Query e params w))) = sink w"
  using newClient_frame [of e w]
  by (cases "newClient e w")
     (auto simp: Query_def setup_ok_def Close_frame
           split: sum.splits option.splits prod.splits outcome.splits)

lemma demo_setup_ok:
  "setup_ok (scenario both_stacks pack evs) ((DefaultParams 0 service)\<lparr>Domain' := [], Timeout := 0\<rparr>) w"
  by (simp add: setup_ok_def newClient_cases scenario_def both_stacks_def DefaultParams_def)

lemma demo_setup_fails:
  "\<not> setup_ok (scenario no_stack pack evs) params w"
  by (simp add: setup_ok_def newClient_cases scenario_def no_stack_def)

text \<open>
  C1. When \<open>Pack\<close> fails, \<open>Query\<close> returns at once, before the loop of lines 180-191
  takes any event, and nothing is sent on the sink; but the value returned is nil
  (line 175 returns nil where the error is at hand), not the error of \<open>Pack\<close>.
\<close>

theorem query_encode_failure_returns_nil:
  "Query (scenario both_stacks pack_fails [Recv (response [answer ''_http._tcp.local.'' 16]), Finish])
     (DefaultParams 0 ''_http._tcp'') world0
   = (Returned None, DefaultParams 0 ''_http._tcp'', world0\<lparr>closed_conns := [4, 6]\<rparr>)"
  by (simp add: Query_def newClient_cases scenario_def both_stacks_def pack_fails_def
       query_def sendQuery_def Close_def world0_def DefaultParams_def ensureDefaults_def
       Second_def Let_def)

text \<open>
  C8. The parameters given to \<open>query\<close> are the normalized ones: an empty domain has
  become \<open>local\<close> and a zero timeout one second (1000000000 ns), a domain and a
  timeout that are set are kept. \<open>query\<close> runs exactly when the set-up goes through;
  otherwise \<open>Query\<close> returns the set-up's error and sends nothing.
\<close>

theorem Query_applies_defaults:
  "Domain' (ensureDefaults params) = (if Domain' params = [] then ''local'' else Domain' params) \<and>
   Timeout (ensureDefaults params) = (if Timeout params = 0 then 1000000000 else Timeout params) \<and>
   (setup_ok e params w \<longrightarrow>
      (\<exists>c w1. newClient e w = (Inr c, w1) \<and>
         fst (Query e params w) = fst (query e c (ensureDefaults params) w1) \<and>
         sink (snd (snd (Query e params w))) = sink (snd (query e c (ensureDefaults params) w1)))) \<and>
   (\<not> setup_ok e params w \<longrightarrow>
      (\<exists>err. fst (Query e params w) = Returned (Some err)) \<and>
      sink (snd (snd (Query e params w))) = sink w)"
  using ensureDefaults_fields [of params] Query_setup_ok [of e params w]
    Query_setup_fails [of e params w]
  by blast

theorem Query_applies_defaults_witness:
  "\<exists>c w1. newClient (scenario both_stacks pack_name [Finish]) world0 = (Inr c, w1) \<and>
     fst (Query (scenario both_stacks pack_name [Finish])
            ((DefaultParams 0 ''_http._tcp'')\<lparr>Domain' := [], Timeout := 0\<rparr>) world0)
       = fst (query (scenario both_stacks pack_name [Finish]) c
            (ensureDefaults ((DefaultParams 0 ''_http._tcp'')\<lparr>Domain' := [], Timeout := 0\<rparr>)) w1) \<and>
     Domain' (ensureDefaults ((DefaultParams 0 ''_http._tcp'')\<lparr>Domain' := [], Timeout := 0\<rparr>))
       = ''local'' \<and>
     Timeout (ensureDefaults ((DefaultParams 0 ''_http._tcp'')\<lparr>Domain' := [], Timeout := 0\<rparr>))
       = 1000000000"
proof -
  let ?e = "scenario both_stacks pack_name [Finish]"
  let ?p = "(DefaultParams 0 ''_http._tcp'')\<lparr>Domain' := [], Timeout := 0\<rparr>"
  note t = Query_applies_defaults [of ?p ?e world0]
  have d: "Domain' (ensureDefaults ?p) = ''local''"
    using t [THEN conjunct1] by simp
  have s: "Timeout (ensureDefaults ?p) = 1000000000"
    using t [THEN conjunct2, THEN conjunct1] by simp
  from t [THEN conjunct2, THEN conjunct2, THEN conjunct1, THEN mp, OF demo_setup_ok]
  obtain c w1 where "newClient ?e world0 = (Inr c, w1)"
    and "fst (Query ?e ?p world0) = fst (query ?e c (ensureDefaults ?p) w1)"
    by blast
  with d s show ?thesis by blast
qed

text \<open>
  C9, as stated, fails: when no socket can be bound \<open>Query\<close> returns before line 71
  and an empty domain is still empty in the caller's struct after the call.
\<close>

theorem Query_defaults_counterexample:
  "\<not> (\<forall>e params w. Domain' params = [] \<longrightarrow> Domain' (fst (snd (Query e params w))) = ''local'')"
proof
  assume a: "\<forall>e params w. Domain' params = [] \<longrightarrow> Domain' (fst (snd (Query e params w))) = ''local''"
  have "Domain' (fst (snd (Query (scenario no_stack pack_name [Finish])
          ((DefaultParams 0 ''_http._tcp'')\<lparr>Domain' := []\<rparr>) world0))) = []"
    by (simp add: Query_def newClient_cases scenario_def no_stack_def DefaultParams_def)
  moreover have "Domain' ((DefaultParams 0 ''_http._tcp'')\<lparr>Domain' := []\<rparr>) = []"
    by simp
  ultimately show False
    using a [rule_format, of "(DefaultParams 0 ''_http._tcp'')\<lparr>Domain' := []\<rparr>"
        "scenario no_stack pack_name [Finish]" world0]
    by simp
qed

text \<open>
  C9, amended. The caller's struct after \<open>Query\<close> is the normalized one when the
  set-up goes through (the client is created and the interface, if one is given, is
  accepted), and the struct as given otherwise. In both cases \<open>Service\<close>,
  \<open>Interface\<close>, \<open>QueryType\<close> and \<open>Entries\<close> are as given.
\<close>

theorem Query_params_after:
  "fst (snd (Query e params w)) = (if setup_ok e params w then ensureDefaults params else params) \<and>
   Domain' (ensureDefaults params) = (if Domain' params = [] then ''local'' else Domain' params) \<and>
   Timeout (ensureDefaults params) = (if Timeout params = 0 then 1000000000 else Timeout params) \<and>
   Service (fst (snd (Query e params w))) = Service params \<and>
   Interface (fst (snd (Query e params w))) = Interface params \<and>
   QueryType (fst (snd (Query e params w))) = QueryType params \<and>
   Entries (fst (snd (Query e params w))) = Entries params"
  by (simp add: Query_params ensureDefaults_fields)

theorem Query_params_after_witness:
  "fst (snd (Query (scenario both_stacks pack_name [Finish])
      ((DefaultParams 0 ''_http._tcp'')\<lparr>Domain' := [], Timeout := 0\<rparr>) world0))
     = (DefaultParams 0 ''_http._tcp'')\<lparr>Domain' := ''local'', Timeout := 1000000000\<rparr> \<and>
   fst (snd (Query (scenario no_stack pack_name [Finish])
      ((DefaultParams 0 ''_http._tcp'')\<lparr>Domain' := [], Timeout := 0\<rparr>) world0))
     = (DefaultParams 0 ''_http._tcp'')\<lparr>Domain' := [], Timeout := 0\<rparr>"
proof -
  let ?p = "(DefaultParams 0 ''_http._tcp'')\<lparr>Domain' := [], Timeout := 0\<rparr>"
  have e: "ensureDefaults ?p = (DefaultParams 0 ''_http._tcp'')\<lparr>Domain' := ''local'', Timeout := 1000000000\<rparr>"
    by (simp add: ensureDefaults_def Second_def)
  show ?thesis
    using Query_params_after [of "scenario both_stacks pack_name [Finish]" ?p world0, THEN conjunct1]
      Query_params_after [of "scenario no_stack pack_name [Finish]" ?p world0, THEN conjunct1]
    by (simp only: demo_setup_ok demo_setup_fails if_True if_False e)
qed

end
